theory Spec2Isabelle
  imports Main
begin

section \<open>Data model\<close>

text \<open>
  The sources are \<^verbatim>\<open>utils/MusicPlayerInteraction.py\<close> (classes \<^verbatim>\<open>Track\<close>,
  \<^verbatim>\<open>Queue\<close> and \<^verbatim>\<open>Player\<close>) and \<^verbatim>\<open>utils/process.py\<close>.
  Users are identified by numbers. A track carries the inherited identifier and title and
  the \<^verbatim>\<open>requester\<close> attribute that \<^verbatim>\<open>Track\<close> adds.
\<close>

type_synonym user = nat

record track =
  track_id :: string
  title :: string
  requester :: user

text \<open>
  The exceptions that leave a method of the model: \<^verbatim>\<open>IndexError\<close> of a deletion by
  index, and \<open>SendError\<close>, the exception that \<^verbatim>\<open>make_song_embed\<close> or
  \<^verbatim>\<open>channel.send\<close> raises, taken not to be \<^verbatim>\<open>asyncio.TimeoutError\<close>.
\<close>

datatype py_error = IndexError | SendError

subsection \<open>Queue\<close>

text \<open>
  \<^verbatim>\<open>Queue\<close> subclasses \<^verbatim>\<open>asyncio.Queue\<close>, whose buffer \<^verbatim>\<open>_queue\<close> is a
  \<^verbatim>\<open>collections.deque\<close>: the contents are a list, head first. The inherited
  \<^verbatim>\<open>put_nowait\<close> appends on the right and \<^verbatim>\<open>get_nowait\<close> pops on the left;
  \<^verbatim>\<open>get_nowait\<close> on an empty buffer raises \<^verbatim>\<open>QueueEmpty\<close>, here \<open>None\<close>.
\<close>

type_synonym queue = "track list"

definition put_nowait :: "queue \<Rightarrow> track \<Rightarrow> queue" where
  "put_nowait q t = q @ [t]"

definition get_nowait :: "queue \<Rightarrow> (track \<times> queue) option" where
  "get_nowait q = (case q of [] \<Rightarrow> None | t # rest \<Rightarrow> Some (t, rest))"

definition clear :: "queue \<Rightarrow> queue" where
  "clear q = []"

text \<open>
  \<^verbatim>\<open>Queue.remove\<close> is \<^verbatim>\<open>del self._queue[index]\<close>. Deleting from a deque by index
  counts a negative index from the right end and raises \<^verbatim>\<open>IndexError\<close> when the
  index, so adjusted, is not a position of the deque. The result is the buffer after the
  call together with the exception raised, if any.
\<close>

definition remove :: "queue \<Rightarrow> int \<Rightarrow> queue \<times> py_error option" where
  "remove q index =
     (let n = int (length q);
          j = (if index < 0 then index + n else index)
      in if 0 \<le> j \<and> j < n
         then (take (nat j) q @ drop (Suc (nat j)) q, None)
         else (q, Some IndexError))"

text \<open>
  A run of the queue under producers and a consumer. \<^verbatim>\<open>Enq t\<close> is a producer's
  \<^verbatim>\<open>put_nowait(t)\<close>; \<^verbatim>\<open>Pop\<close> is the consumer's \<^verbatim>\<open>await get()\<close>. A
  \<^verbatim>\<open>get\<close> on an empty buffer suspends (it is counted in \<open>getters\<close>) and is completed by
  the next \<^verbatim>\<open>put_nowait\<close>, which appends its item and wakes the suspended getter, which
  then pops the head. \<open>popped\<close> lists the tracks returned by completed pops, oldest first.
\<close>

datatype qop = Enq track | Pop

record qstate =
  items :: queue
  getters :: nat
  popped :: "track list"

definition qinit :: qstate where
  "qinit = \<lparr>items = [], getters = 0, popped = []\<rparr>"

fun qstep :: "qstate \<Rightarrow> qop \<Rightarrow> qstate" where
  "qstep s (Enq t) =
     (let q = put_nowait (items s) t
      in if 0 < getters s
         then (case get_nowait q of
                 None \<Rightarrow> s\<lparr>items := q\<rparr>
               | Some (h, rest) \<Rightarrow>
                   s\<lparr>items := rest, getters := getters s - 1, popped := popped s @ [h]\<rparr>)
         else s\<lparr>items := q\<rparr>)"
| "qstep s Pop =
     (case get_nowait (items s) of
        None \<Rightarrow> s\<lparr>getters := Suc (getters s)\<rparr>
      | Some (h, rest) \<Rightarrow> s\<lparr>items := rest, popped := popped s @ [h]\<rparr>)"

fun qrun :: "qstate \<Rightarrow> qop list \<Rightarrow> qstate" where
  "qrun s [] = s"
| "qrun s (x # xs) = qrun (qstep s x) xs"

fun enqueued :: "qop list \<Rightarrow> track list" where
  "enqueued [] = []"
| "enqueued (Enq t # xs) = t # enqueued xs"
| "enqueued (Pop # xs) = enqueued xs"

subsection \<open>Playback session\<close>

text \<open>
  A chat message, as far as the session looks at it: its \<^verbatim>\<open>id\<close>, and the id behind its
  \<^verbatim>\<open>message\<close> attribute, which \<^verbatim>\<open>is_menu_available\<close> reads as
  \<^verbatim>\<open>self.menu.message.id\<close>. The chat library is not part of the sources, so whether the
  object returned by \<^verbatim>\<open>channel.send\<close> has that attribute is left open:
  \<open>message_attr\<close> is \<open>None\<close> when the lookup raises \<^verbatim>\<open>AttributeError\<close>.
\<close>

record message =
  msg_id :: nat
  message_attr :: "nat option"

text \<open>The fields that \<^verbatim>\<open>Player.__init__\<close> sets and the methods below use.\<close>

record player =
  queue :: queue
  menu :: "message option"
  loop :: bool
  waiting :: bool
  updating :: bool
  now :: "track option"
  pause_votes :: "user set"
  resume_votes :: "user set"
  skip_votes :: "user set"
  shuffle_votes :: "user set"
  stop_votes :: "user set"
  clear_votes :: "user set"

text \<open>
  Calls to the collaborators, in the order the session makes them. \<^verbatim>\<open>Edit\<close> is the chat
  platform's edit call, which no method of the session makes.
\<close>

datatype event =
    Play "track option"
  | Send
  | Edit message
  | Delete message
  | History
  | Destroy
  | Warn string

datatype delete_outcome = Deleted | DeleteHTTPException
datatype destroy_outcome = Destroyed | DestroyKeyError

text \<open>
  What the collaborators answer during one call of a method:
  \<^item> \<open>is_playing\<close>: the inherited property \<^verbatim>\<open>self.is_playing\<close> at the guard;
  \<^item> \<open>arrivals\<close>: the tracks that producers put in the queue while \<^verbatim>\<open>queue.get()\<close>
    is suspended, before the 120 second timeout; empty when none arrives in time;
  \<^item> \<open>history\<close>: the ids that \<^verbatim>\<open>channel.history(limit=10)\<close> yields, \<open>None\<close> when it
    raises \<^verbatim>\<open>HTTPException\<close>;
  \<^item> \<open>delete_res\<close>: how \<^verbatim>\<open>self.menu.delete()\<close> ends;
  \<^item> \<open>destroy_res\<close>: how \<^verbatim>\<open>self.destroy()\<close> ends;
  \<^item> \<open>sent\<close>: the message that \<^verbatim>\<open>channel.send(embed=await self.make_song_embed())\<close>
    returns; \<open>None\<close> when \<^verbatim>\<open>make_song_embed\<close> or \<^verbatim>\<open>channel.send\<close> raises.
  \<^verbatim>\<open>self.play\<close> is taken to return.
\<close>

record env =
  is_playing :: bool
  arrivals :: "track list"
  history :: "nat list option"
  delete_res :: delete_outcome
  destroy_res :: destroy_outcome
  sent :: "message option"

text \<open>
  How a call of a method ends: the session it leaves, the calls it made to the
  collaborators, and the exception that leaves the method, if one does. The assignments
  made before an exception is raised stay in the session.
\<close>

record outcome =
  session :: player
  calls :: "event list"
  raised :: "py_error option"

text \<open>
  \<^verbatim>\<open>await self.queue.get()\<close> under \<^verbatim>\<open>async_timeout.timeout(120)\<close>: a non-empty
  buffer gives its head at once; on an empty one the call suspends, and the first track to
  arrive is returned, the later arrivals staying in the buffer; \<open>None\<close> is
  \<^verbatim>\<open>asyncio.TimeoutError\<close>.
\<close>

definition queue_get :: "queue \<Rightarrow> track list \<Rightarrow> (track \<times> queue) option" where
  "queue_get q arr =
     (case get_nowait q of
        Some r \<Rightarrow> Some r
      | None \<Rightarrow> get_nowait arr)"

text \<open>
  \<^verbatim>\<open>is_menu_available\<close>: the loop over the history compares each id with
  \<^verbatim>\<open>self.menu.message.id\<close>; an \<^verbatim>\<open>AttributeError\<close> of that lookup, raised at the first
  message, and an \<^verbatim>\<open>HTTPException\<close> of the history both give \<^verbatim>\<open>False\<close>.
\<close>

fun scan_history :: "nat list \<Rightarrow> message option \<Rightarrow> bool" where
  "scan_history [] mo = False"
| "scan_history (x # xs) mo =
     (case mo of
        None \<Rightarrow> False
      | Some m \<Rightarrow>
          (case message_attr m of
             None \<Rightarrow> False
           | Some i \<Rightarrow> if x = i then True else scan_history xs mo))"

definition is_menu_available :: "env \<Rightarrow> player \<Rightarrow> bool" where
  "is_menu_available e p =
     (case history e of
        None \<Rightarrow> False
      | Some ms \<Rightarrow> scan_history (take 10 ms) (menu p))"

text \<open>
  \<^verbatim>\<open>songmenucontroller\<close>: each of the three branches ends in a send. The source has no
  handler around it and no \<^verbatim>\<open>finally\<close>: when the send raises, the exception leaves the
  method, nothing is assigned to \<^verbatim>\<open>self.menu\<close>, and \<^verbatim>\<open>self.updating = False\<close> is not
  reached.
\<close>

definition songmenucontroller :: "env \<Rightarrow> player \<Rightarrow> outcome" where
  "songmenucontroller e p =
     (if updating p then \<lparr>session = p, calls = [], raised = None\<rparr>
      else
        (let p1 = p\<lparr>updating := True\<rparr>
         in case menu p1 of
              None \<Rightarrow>
                (case sent e of
                   None \<Rightarrow> \<lparr>session = p1, calls = [], raised = Some SendError\<rparr>
                 | Some msg \<Rightarrow>
                     \<lparr>session = p1\<lparr>menu := Some msg, updating := False\<rparr>,
                      calls = [Send], raised = None\<rparr>)
            | Some m \<Rightarrow>
                if \<not> is_menu_available e p1
                then
                  (let evs = [History, Delete m] @
                             (case delete_res e of
                                Deleted \<Rightarrow> []
                              | DeleteHTTPException \<Rightarrow> [Warn ''Failed to delete menu message''])
                   in case sent e of
                        None \<Rightarrow> \<lparr>session = p1, calls = evs, raised = Some SendError\<rparr>
                      | Some msg \<Rightarrow>
                          \<lparr>session = p1\<lparr>updating := False\<rparr>,
                           calls = evs @ [Send], raised = None\<rparr>)
                else
                  (case sent e of
                     None \<Rightarrow> \<lparr>session = p1, calls = [History], raised = Some SendError\<rparr>
                   | Some msg \<Rightarrow>
                       \<lparr>session = p1\<lparr>updating := False\<rparr>,
                        calls = [History, Send], raised = None\<rparr>)))"

definition teardown :: "env \<Rightarrow> player \<Rightarrow> outcome" where
  "teardown e p =
     \<lparr>session = p,
      calls =
        (case menu p of
           None \<Rightarrow> [Warn ''Failed to delete menu message: No menu message'']
         | Some m \<Rightarrow>
             Delete m #
             (case delete_res e of
                Deleted \<Rightarrow> []
              | DeleteHTTPException \<Rightarrow> [Warn ''Failed to delete menu message''])) @
        [Destroy] @
        (case destroy_res e of
           Destroyed \<Rightarrow> []
         | DestroyKeyError \<Rightarrow> [Warn ''Failed to destroy player'']),
      raised = None\<rparr>"

text \<open>
  \<^verbatim>\<open>play_next_song\<close>: the handler of the \<^verbatim>\<open>try\<close> catches only
  \<^verbatim>\<open>asyncio.TimeoutError\<close>, so an exception of the refresh leaves the method; the refresh
  is the last call on both paths.
\<close>

definition play_next_song :: "env \<Rightarrow> player \<Rightarrow> outcome" where
  "play_next_song e p =
     (if is_playing e \<or> waiting p then \<lparr>session = p, calls = [], raised = None\<rparr>
      else
        (let p1 = p\<lparr>pause_votes := {}, resume_votes := {}, skip_votes := {},
                     shuffle_votes := {}, stop_votes := {}\<rparr>
         in if \<not> loop p1
            then
              (let p2 = p1\<lparr>waiting := True\<rparr>
               in case queue_get (queue p2) (arrivals e) of
                    None \<Rightarrow> teardown e p2
                  | Some (t, rest) \<Rightarrow>
                      (let p3 = p2\<lparr>queue := rest, now := Some t\<rparr>;
                           p4 = p3\<lparr>waiting := False\<rparr>;
                           r = songmenucontroller e p4
                       in \<lparr>session = session r, calls = Play (Some t) # calls r,
                           raised = raised r\<rparr>))
            else
              (let r = songmenucontroller e p1
               in \<lparr>session = session r, calls = Play (now p1) # calls r,
                   raised = raised r\<rparr>)))"

text \<open>The \<^verbatim>\<open>loop\<close> setter.\<close>

definition set_loop :: "bool \<Rightarrow> player \<Rightarrow> player" where
  "set_loop v p = p\<lparr>loop := v\<rparr>"

text \<open>
  A session's history: calls of its methods, each with the collaborators' answers. The
  session lives on after a call that raised.
\<close>

datatype call = PlayNext env | Refresh env | Teardown env | SetLoop bool

fun step :: "player \<Rightarrow> call \<Rightarrow> player" where
  "step p (PlayNext e) = session (play_next_song e p)"
| "step p (Refresh e) = session (songmenucontroller e p)"
| "step p (Teardown e) = session (teardown e p)"
| "step p (SetLoop v) = set_loop v p"

fun run :: "player \<Rightarrow> call list \<Rightarrow> player" where
  "run p [] = p"
| "run p (c # cs) = run (step p c) cs"

subsection \<open>Node launch\<close>

text \<open>
  \<^verbatim>\<open>subprocess.run\<close> is called without \<^verbatim>\<open>check\<close>, so a command that fails is a
  completed process with a non-zero return code, not an exception.
\<close>

record completed =
  returncode :: int
  stdout :: string

datatype pevent =
    Exec "string list"
  | Shell string
  | LogSuccess string
  | LogInfo string
  | LogError string
  | Print string

definition bash_command :: string where
  "bash_command = ''cd Lavalink && java -jar Lavalink.jar''"

definition BaseProgram :: string where
  "BaseProgram = ''java''"

text \<open>
  \<open>process\<close> is the outcome of \<^verbatim>\<open>which java\<close>; \<open>output\<close> is the outcome of the launch
  command, read only when the command is run.
\<close>

definition run_lavalink_process :: "completed \<Rightarrow> completed \<Rightarrow> pevent list" where
  "run_lavalink_process process output =
     Exec [''which'', BaseProgram] #
     (if returncode process = 0
      then
        [LogSuccess (''The program '' @ [CHR 0x22] @ BaseProgram @ [CHR 0x22] @
                     '' is installed. Lavalink can be run.''),
         LogInfo (''The location of '' @ BaseProgram @ '' is: '' @ stdout process),
         Shell bash_command] @
        (if returncode output = 0 then [LogSuccess ''Lavalink is running.''] else []) @
        (if returncode output = - 2 then []
         else [LogError (''Lavalink is not running. Error: '' @ stdout output)])
      else
        [LogError (''Sorry, '' @ BaseProgram @
                   '' is not installed in your system. Please install it in order to run Lavalink.''),
         Print (stdout process)])"

text \<open>\<^verbatim>\<open>lavalink_alive\<close> starts one thread whose target is the routine: it runs once.\<close>

definition lavalink_alive :: "completed \<Rightarrow> completed \<Rightarrow> pevent list" where
  "lavalink_alive process output = run_lavalink_process process output"

fun is_shell :: "pevent \<Rightarrow> bool" where
  "is_shell (Shell c) = True"
| "is_shell _ = False"

fun is_error_log :: "pevent \<Rightarrow> bool" where
  "is_error_log (LogError m) = True"
| "is_error_log _ = False"

subsection \<open>Initial session and sample inputs\<close>

text \<open>The state that \<^verbatim>\<open>Player.__init__\<close> builds.\<close>

definition init_player :: player where
  "init_player =
     \<lparr>queue = [], menu = None, loop = False, waiting = False, updating = False, now = None,
      pause_votes = {}, resume_votes = {}, skip_votes = {}, shuffle_votes = {},
      stop_votes = {}, clear_votes = {}\<rparr>"

definition track_A :: track where
  "track_A = \<lparr>track_id = ''a'', title = ''A'', requester = 1\<rparr>"

definition track_B :: track where
  "track_B = \<lparr>track_id = ''b'', title = ''B'', requester = 2\<rparr>"

definition track_C :: track where
  "track_C = \<lparr>track_id = ''c'', title = ''C'', requester = 3\<rparr>"

text \<open>
  Collaborators that answer without error: nothing is playing, no track arrives, the
  channel history is empty, and \<^verbatim>\<open>send\<close> returns message 1.
\<close>

definition quiet_env :: env where
  "quiet_env =
     \<lparr>is_playing = False, arrivals = [], history = Some [], delete_res = Deleted,
      destroy_res = Destroyed, sent = Some \<lparr>msg_id = 1, message_attr = None\<rparr>\<rparr>"

section \<open>The queue\<close>

subsection \<open>Order of pops\<close>

lemma qstep_keeps_order:
  "popped (qstep s x) @ items (qstep s x) = popped s @ items s @ enqueued [x]"
  by (cases x) (auto simp: put_nowait_def get_nowait_def Let_def split: list.splits)

lemma qrun_keeps_order:
  "popped (qrun s xs) @ items (qrun s xs) = popped s @ items s @ enqueued xs"
proof (induction xs arbitrary: s)
  case Nil
  show ?case by simp
next
  case (Cons x xs)
  have "popped (qrun s (x # xs)) @ items (qrun s (x # xs)) =
        popped (qstep s x) @ items (qstep s x) @ enqueued xs"
    using Cons.IH [of "qstep s x"] by simp
  also have "\<dots> = popped s @ items s @ enqueued [x] @ enqueued xs"
    using qstep_keeps_order [of s x] by (metis append.assoc)
  also have "enqueued [x] @ enqueued xs = enqueued (x # xs)"
    by (cases x) simp_all
  finally show ?case .
qed

text \<open>
  Claim C5. In every run of enqueues and pops on a queue that starts empty, with no shuffle
  and no removal, the tracks returned by the pops are, in order, an initial part of the
  tracks enqueued, and the tracks still buffered are the rest, in order. In particular,
  enqueuing \<open>a\<close>, \<open>b\<close>, \<open>c\<close> makes the first three pops return \<open>a\<close>, \<open>b\<close>, \<open>c\<close>.
\<close>

theorem pops_follow_enqueue_order:
  "popped (qrun qinit ops) @ items (qrun qinit ops) = enqueued ops
   \<and> popped (qrun qinit ops) = take (length (popped (qrun qinit ops))) (enqueued ops)
   \<and> popped (qrun qinit [Enq a, Enq b, Enq c, Pop, Pop, Pop]) = [a, b, c]"
proof -
  have whole: "popped (qrun qinit ops) @ items (qrun qinit ops) = enqueued ops"
    using qrun_keeps_order [of qinit ops] by (simp add: qinit_def)
  have "take (length (popped (qrun qinit ops))) (popped (qrun qinit ops) @ items (qrun qinit ops))
        = popped (qrun qinit ops)"
    by simp
  then have pre: "popped (qrun qinit ops) = take (length (popped (qrun qinit ops))) (enqueued ops)"
    using whole by simp
  have scen: "popped (qrun qinit [Enq a, Enq b, Enq c, Pop, Pop, Pop]) = [a, b, c]"
    by (simp add: qinit_def put_nowait_def get_nowait_def)
  from whole pre scen show ?thesis by blast
qed

theorem pops_follow_enqueue_order_witness:
  "popped (qrun qinit [Pop, Enq track_A, Enq track_B, Pop, Enq track_C]) = [track_A, track_B]
   \<and> items (qrun qinit [Pop, Enq track_A, Enq track_B, Pop, Enq track_C]) = [track_C]"
  using pops_follow_enqueue_order [of "[Pop, Enq track_A, Enq track_B, Pop, Enq track_C]"]
  by (simp add: qinit_def put_nowait_def get_nowait_def)

subsection \<open>Removal by index\<close>

lemma remove_invalid:
  "index < - int (length q) \<or> int (length q) \<le> index \<Longrightarrow> remove q index = (q, Some IndexError)"
  by (auto simp: remove_def Let_def)

lemma remove_valid:
  assumes "- int (length q) \<le> index" "index < int (length q)"
  shows "remove q index =
           (take (nat (if index < 0 then index + int (length q) else index)) q @
            drop (Suc (nat (if index < 0 then index + int (length q) else index))) q, None)"
  using assms by (simp add: remove_def Let_def)

text \<open>
  Claim C6. \<^verbatim>\<open>Queue.remove\<close> with an index that is not a position of the queue, in
  particular the index equal to the size of the queue, raises \<^verbatim>\<open>IndexError\<close> and leaves
  the queue as it was. With a valid index it removes the element at that position and no
  other: putting the element back at position \<open>j\<close> gives the old queue.
\<close>

theorem remove_index_out_of_range:
  fixes q :: queue and index :: int
  defines "j \<equiv> nat (if index < 0 then index + int (length q) else index)"
  shows "(index < - int (length q) \<or> int (length q) \<le> index
            \<longrightarrow> remove q index = (q, Some IndexError))
       \<and> remove q (int (length q)) = (q, Some IndexError)
       \<and> (- int (length q) \<le> index \<and> index < int (length q)
            \<longrightarrow> j < length q
              \<and> remove q index = (take j q @ drop (Suc j) q, None)
              \<and> length (fst (remove q index)) = length q - 1
              \<and> take j (fst (remove q index)) @ q ! j # drop j (fst (remove q index)) = q)"
proof -
  have a: "index < - int (length q) \<or> int (length q) \<le> index
            \<Longrightarrow> remove q index = (q, Some IndexError)"
    by (rule remove_invalid)
  have b: "remove q (int (length q)) = (q, Some IndexError)"
    by (rule remove_invalid) simp
  have c: "j < length q
              \<and> remove q index = (take j q @ drop (Suc j) q, None)
              \<and> length (fst (remove q index)) = length q - 1
              \<and> take j (fst (remove q index)) @ q ! j # drop j (fst (remove q index)) = q"
    if v: "- int (length q) \<le> index \<and> index < int (length q)"
  proof -
    have jl: "j < length q" using v by (auto simp: j_def)
    have r: "remove q index = (take j q @ drop (Suc j) q, None)"
      using v remove_valid [of q index] by (simp add: j_def)
    have l: "length (take j q @ drop (Suc j) q) = length q - 1"
      using jl by simp
    have t: "take j (take j q @ drop (Suc j) q) = take j q" using jl by simp
    have d: "drop j (take j q @ drop (Suc j) q) = drop (Suc j) q" using jl by simp
    have "take j q @ q ! j # drop (Suc j) q = q"
      using jl by (simp add: id_take_nth_drop [symmetric])
    with jl r l t d show ?thesis by simp
  qed
  from a b c show ?thesis by blast
qed

theorem remove_index_out_of_range_witness:
  "remove [track_A, track_B, track_C] 3 = ([track_A, track_B, track_C], Some IndexError)
   \<and> remove [track_A, track_B, track_C] 1 = ([track_A, track_C], None)"
  using remove_index_out_of_range [of 3 "[track_A, track_B, track_C]"]
        remove_index_out_of_range [of 1 "[track_A, track_B, track_C]"]
  by simp

text \<open>
  Claim C10. On a non-empty queue of size \<open>n\<close>, \<^verbatim>\<open>Queue.remove\<close> accepts the indices
  \<open>-1\<close> down to \<open>-n\<close> without error, index \<open>-1\<close> removes the last element, and the
  call raises \<^verbatim>\<open>IndexError\<close> exactly for the indices outside \<open>[-n, n-1]\<close>.
\<close>

theorem remove_negative_index:
  assumes "q \<noteq> []"
  shows "(- int (length q) \<le> index \<and> index \<le> - 1 \<longrightarrow> snd (remove q index) = None)
       \<and> remove q (- 1) = (butlast q, None)
       \<and> (snd (remove q index) = Some IndexError
            \<longleftrightarrow> index < - int (length q) \<or> int (length q) - 1 < index)"
proof -
  have pos: "0 < length q" using assms by simp
  have a: "- int (length q) \<le> index \<and> index \<le> - 1 \<longrightarrow> snd (remove q index) = None"
    by (auto simp: remove_def Let_def)
  have k: "nat (int (length q) - 1) = length q - Suc 0" by arith
  have "remove q (- 1) = (take (length q - 1) q @ drop (Suc (length q - 1)) q, None)"
    using pos by (simp add: remove_def Let_def k)
  then have b: "remove q (- 1) = (butlast q, None)"
    using pos by (simp add: butlast_conv_take)
  have c: "snd (remove q index) = Some IndexError
            \<longleftrightarrow> index < - int (length q) \<or> int (length q) - 1 < index"
    by (auto simp: remove_def Let_def)
  from a b c show ?thesis by blast
qed

theorem remove_negative_index_witness:
  "[track_A, track_B, track_C] \<noteq> []
   \<and> remove [track_A, track_B, track_C] (- 1) = ([track_A, track_B], None)
   \<and> snd (remove [track_A, track_B, track_C] (- 3)) = None
   \<and> snd (remove [track_A, track_B, track_C] (- 4)) = Some IndexError"
  using remove_negative_index [of "[track_A, track_B, track_C]" "- 3"]
        remove_negative_index [of "[track_A, track_B, track_C]" "- 4"]
  by simp

section \<open>The playback session\<close>

subsection \<open>Facts about the control surface and the teardown\<close>

lemma songmenucontroller_votes:
  "pause_votes (session (songmenucontroller e p)) = pause_votes p"
  "resume_votes (session (songmenucontroller e p)) = resume_votes p"
  "skip_votes (session (songmenucontroller e p)) = skip_votes p"
  "shuffle_votes (session (songmenucontroller e p)) = shuffle_votes p"
  "stop_votes (session (songmenucontroller e p)) = stop_votes p"
  "clear_votes (session (songmenucontroller e p)) = clear_votes p"
  by (simp_all add: songmenucontroller_def Let_def split: option.splits)

lemma songmenucontroller_busy:
  "updating p \<Longrightarrow> songmenucontroller e p = \<lparr>session = p, calls = [], raised = None\<rparr>"
  by (simp add: songmenucontroller_def)

lemma songmenucontroller_menu_kept:
  "menu p = Some m \<Longrightarrow> menu (session (songmenucontroller e p)) = Some m"
  by (simp add: songmenucontroller_def Let_def split: option.splits)

lemma songmenucontroller_menu_created:
  "menu p = None \<Longrightarrow> \<not> updating p \<Longrightarrow> sent e = Some msg \<Longrightarrow>
     songmenucontroller e p = \<lparr>session = p\<lparr>menu := Some msg\<rparr>, calls = [Send], raised = None\<rparr>"
  by (simp add: songmenucontroller_def Let_def)

lemma songmenucontroller_send_raises:
  "menu p = None \<Longrightarrow> \<not> updating p \<Longrightarrow> sent e = None \<Longrightarrow>
     songmenucontroller e p =
       \<lparr>session = p\<lparr>updating := True\<rparr>, calls = [], raised = Some SendError\<rparr>"
  by (simp add: songmenucontroller_def Let_def)

lemma teardown_state: "session (teardown e p) = p"
  by (simp add: teardown_def)

lemma play_next_song_split:
  "play_next_song e p =
     (if is_playing e \<or> waiting p then \<lparr>session = p, calls = [], raised = None\<rparr>
      else if loop p then
        \<lparr>session = session (songmenucontroller e (p\<lparr>pause_votes := {}, resume_votes := {},
                     skip_votes := {}, shuffle_votes := {}, stop_votes := {}\<rparr>)),
         calls = Play (now p) # calls (songmenucontroller e (p\<lparr>pause_votes := {},
                     resume_votes := {}, skip_votes := {}, shuffle_votes := {}, stop_votes := {}\<rparr>)),
         raised = raised (songmenucontroller e (p\<lparr>pause_votes := {}, resume_votes := {},
                     skip_votes := {}, shuffle_votes := {}, stop_votes := {}\<rparr>))\<rparr>
      else case queue_get (queue p) (arrivals e) of
             None \<Rightarrow> teardown e (p\<lparr>pause_votes := {}, resume_votes := {}, skip_votes := {},
                     shuffle_votes := {}, stop_votes := {}, waiting := True\<rparr>)
           | Some (t, rest) \<Rightarrow>
               \<lparr>session = session (songmenucontroller e (p\<lparr>pause_votes := {}, resume_votes := {},
                     skip_votes := {}, shuffle_votes := {}, stop_votes := {}, queue := rest,
                     now := Some t, waiting := False\<rparr>)),
                calls = Play (Some t) # calls (songmenucontroller e (p\<lparr>pause_votes := {},
                     resume_votes := {}, skip_votes := {}, shuffle_votes := {}, stop_votes := {},
                     queue := rest, now := Some t, waiting := False\<rparr>)),
                raised = raised (songmenucontroller e (p\<lparr>pause_votes := {}, resume_votes := {},
                     skip_votes := {}, shuffle_votes := {}, stop_votes := {}, queue := rest,
                     now := Some t, waiting := False\<rparr>))\<rparr>)"
  by (simp add: play_next_song_def Let_def split: option.splits)

lemma play_next_song_five_reset:
  assumes "\<not> is_playing e" "\<not> waiting p"
  shows "pause_votes (session (play_next_song e p)) = {}"
    and "resume_votes (session (play_next_song e p)) = {}"
    and "skip_votes (session (play_next_song e p)) = {}"
    and "shuffle_votes (session (play_next_song e p)) = {}"
    and "stop_votes (session (play_next_song e p)) = {}"
  using assms
  by (simp_all add: play_next_song_split songmenucontroller_votes teardown_state split: option.splits)

lemma play_next_song_clear_votes:
  "clear_votes (session (play_next_song e p)) = clear_votes p"
  by (simp add: play_next_song_split songmenucontroller_votes teardown_state split: option.splits)

lemma play_next_song_menu_kept:
  "menu p = Some m \<Longrightarrow> menu (session (play_next_song e p)) = Some m"
  by (simp add: play_next_song_split songmenucontroller_menu_kept teardown_state split: option.splits)

lemma play_next_song_stuck:
  "menu p = None \<Longrightarrow> updating p \<Longrightarrow>
     menu (session (play_next_song e p)) = None \<and> updating (session (play_next_song e p))"
  by (simp add: play_next_song_split songmenucontroller_busy teardown_state split: option.splits)

lemma step_menu_kept: "menu p = Some m \<Longrightarrow> menu (step p c) = Some m"
  by (cases c)
     (simp_all add: play_next_song_menu_kept songmenucontroller_menu_kept teardown_state set_loop_def)

lemma run_menu_kept: "menu p = Some m \<Longrightarrow> menu (run p cs) = Some m"
proof (induction cs arbitrary: p)
  case Nil
  then show ?case by simp
next
  case (Cons c cs)
  from Cons.prems have "menu (step p c) = Some m" by (rule step_menu_kept)
  then have "menu (run (step p c) cs) = Some m" by (rule Cons.IH)
  then show ?case by simp
qed

lemma step_stuck:
  "menu p = None \<Longrightarrow> updating p \<Longrightarrow> menu (step p c) = None \<and> updating (step p c)"
  by (cases c)
     (simp_all add: play_next_song_stuck songmenucontroller_busy teardown_state set_loop_def)

lemma run_stuck: "menu p = None \<Longrightarrow> updating p \<Longrightarrow> menu (run p cs) = None"
proof (induction cs arbitrary: p)
  case Nil
  then show ?case by simp
next
  case (Cons c cs)
  from Cons.prems have "menu (step p c) = None \<and> updating (step p c)" by (rule step_stuck)
  then have "menu (run (step p c) cs) = None" by (simp add: Cons.IH)
  then show ?case by simp
qed

subsection \<open>Votes across track transitions\<close>

text \<open>
  Claim C1 as stated says that a repeat in loop mode leaves all six vote sets as they were.
  \<^verbatim>\<open>play_next_song\<close> clears the votes before it looks at the loop flag: a session in loop
  mode, neither playing nor waiting, with one skip vote, replays its track and has no skip
  vote afterwards.
\<close>

theorem loop_repeat_keeps_votes_counterexample:
  "loop (init_player\<lparr>loop := True, now := Some track_A, skip_votes := {7}\<rparr>)
   \<and> \<not> is_playing quiet_env
   \<and> \<not> waiting (init_player\<lparr>loop := True, now := Some track_A, skip_votes := {7}\<rparr>)
   \<and> calls (play_next_song quiet_env
             (init_player\<lparr>loop := True, now := Some track_A, skip_votes := {7}\<rparr>))
       = [Play (Some track_A), Send]
   \<and> skip_votes (session (play_next_song quiet_env
             (init_player\<lparr>loop := True, now := Some track_A, skip_votes := {7}\<rparr>)))
       \<noteq> skip_votes (init_player\<lparr>loop := True, now := Some track_A, skip_votes := {7}\<rparr>)"
  by (simp add: play_next_song_split songmenucontroller_def Let_def init_player_def quiet_env_def)

text \<open>
  Claim C1, amended. When the session is neither playing nor waiting, a repeat in loop mode
  (the current track is played again) empties the pause, resume, skip, shuffle and stop vote
  sets, and so does a new-track transition (the pop returns a track, which is played).
\<close>

theorem play_next_song_resets_votes:
  assumes "\<not> is_playing e" and "\<not> waiting p"
  shows "(loop p \<longrightarrow>
            hd (calls (play_next_song e p)) = Play (now p)
          \<and> pause_votes (session (play_next_song e p)) = {}
          \<and> resume_votes (session (play_next_song e p)) = {}
          \<and> skip_votes (session (play_next_song e p)) = {}
          \<and> shuffle_votes (session (play_next_song e p)) = {}
          \<and> stop_votes (session (play_next_song e p)) = {})
       \<and> (\<not> loop p \<and> queue_get (queue p) (arrivals e) = Some (t, rest) \<longrightarrow>
            hd (calls (play_next_song e p)) = Play (Some t)
          \<and> pause_votes (session (play_next_song e p)) = {}
          \<and> resume_votes (session (play_next_song e p)) = {}
          \<and> skip_votes (session (play_next_song e p)) = {}
          \<and> shuffle_votes (session (play_next_song e p)) = {}
          \<and> stop_votes (session (play_next_song e p)) = {})"
proof -
  have a: "loop p \<Longrightarrow> hd (calls (play_next_song e p)) = Play (now p)"
    using assms by (simp add: play_next_song_split)
  have b: "\<not> loop p \<and> queue_get (queue p) (arrivals e) = Some (t, rest)
             \<Longrightarrow> hd (calls (play_next_song e p)) = Play (Some t)"
    using assms by (simp add: play_next_song_split)
  from a b play_next_song_five_reset [OF assms] show ?thesis by blast
qed

theorem play_next_song_resets_votes_witness:
  "\<not> is_playing quiet_env
   \<and> \<not> waiting (init_player\<lparr>loop := True, now := Some track_A, skip_votes := {7}\<rparr>)
   \<and> loop (init_player\<lparr>loop := True, now := Some track_A, skip_votes := {7}\<rparr>)
   \<and> skip_votes (session (play_next_song quiet_env
        (init_player\<lparr>loop := True, now := Some track_A, skip_votes := {7}\<rparr>))) = {}
   \<and> \<not> waiting (init_player\<lparr>queue := [track_A], stop_votes := {7}\<rparr>)
   \<and> \<not> loop (init_player\<lparr>queue := [track_A], stop_votes := {7}\<rparr>)
   \<and> queue_get (queue (init_player\<lparr>queue := [track_A], stop_votes := {7}\<rparr>)) (arrivals quiet_env)
       = Some (track_A, [])
   \<and> stop_votes (session (play_next_song quiet_env
        (init_player\<lparr>queue := [track_A], stop_votes := {7}\<rparr>))) = {}"
  using play_next_song_resets_votes
          [of quiet_env "init_player\<lparr>loop := True, now := Some track_A, skip_votes := {7}\<rparr>"]
        play_next_song_resets_votes
          [of quiet_env "init_player\<lparr>queue := [track_A], stop_votes := {7}\<rparr>" track_A "[]"]
  by (simp add: init_player_def quiet_env_def queue_get_def get_nowait_def)

text \<open>
  Claim C2 says that all six vote sets are empty right after a new track begins playing.
  Under the comment \<^verbatim>\<open>Clear the votes for a new song\<close> the source clears five of the sets
  and not \<^verbatim>\<open>clear_votes\<close>: a session with track A queued and one clear vote starts A and
  still has that vote.
\<close>

theorem new_track_leaves_clear_votes:
  "play_next_song quiet_env (init_player\<lparr>queue := [track_A], clear_votes := {1}\<rparr>)
     = \<lparr>session = init_player\<lparr>menu := Some \<lparr>msg_id = 1, message_attr = None\<rparr>,
                                now := Some track_A, clear_votes := {1}\<rparr>,
        calls = [Play (Some track_A), Send],
        raised = None\<rparr>
   \<and> card (clear_votes (session (play_next_song quiet_env
                (init_player\<lparr>queue := [track_A], clear_votes := {1}\<rparr>)))) = 1"
  by (simp add: play_next_song_split songmenucontroller_def Let_def init_player_def quiet_env_def
                queue_get_def get_nowait_def)

subsection \<open>Re-entrancy guard\<close>

text \<open>
  Claim C3. When the session is already playing, or its \<^verbatim>\<open>waiting\<close> flag is set,
  \<^verbatim>\<open>play_next_song\<close> returns at once: the session, all its fields and its queue, is
  unchanged and no collaborator is called.
\<close>

theorem play_next_song_noop_when_busy:
  "is_playing e \<or> waiting p \<Longrightarrow>
     play_next_song e p = \<lparr>session = p, calls = [], raised = None\<rparr>"
  by (auto simp: play_next_song_def)

theorem play_next_song_noop_when_busy_witness:
  "(is_playing quiet_env \<or> waiting (init_player\<lparr>queue := [track_A], waiting := True\<rparr>))
   \<and> play_next_song quiet_env (init_player\<lparr>queue := [track_A], waiting := True\<rparr>)
       = \<lparr>session = init_player\<lparr>queue := [track_A], waiting := True\<rparr>, calls = [],
          raised = None\<rparr>
   \<and> (is_playing (quiet_env\<lparr>is_playing := True\<rparr>) \<or> waiting (init_player\<lparr>queue := [track_A]\<rparr>))
   \<and> play_next_song (quiet_env\<lparr>is_playing := True\<rparr>) (init_player\<lparr>queue := [track_A]\<rparr>)
       = \<lparr>session = init_player\<lparr>queue := [track_A]\<rparr>, calls = [], raised = None\<rparr>"
  using play_next_song_noop_when_busy
          [of quiet_env "init_player\<lparr>queue := [track_A], waiting := True\<rparr>"]
        play_next_song_noop_when_busy
          [of "quiet_env\<lparr>is_playing := True\<rparr>" "init_player\<lparr>queue := [track_A]\<rparr>"]
  by (simp add: init_player_def quiet_env_def)

subsection \<open>Idle timeout\<close>

lemma teardown_events:
  "Destroy \<in> set (calls (teardown e p))"
  "count_list (calls (teardown e p)) Destroy = 1"
  "Play t \<notin> set (calls (teardown e p))"
  "Send \<notin> set (calls (teardown e p))"
  "menu p = Some m \<Longrightarrow> hd (calls (teardown e p)) = Delete m"
  "raised (teardown e p) = None"
  by (simp_all add: teardown_def split: option.splits delete_outcome.splits destroy_outcome.splits)

text \<open>
  Claim C4. On the non-loop path, when the pop times out (the queue is empty and no track
  arrives within the timeout), \<^verbatim>\<open>play_next_song\<close> is the teardown of the waiting session:
  no play request and no message is issued, the menu message, if there is one, is deleted
  first, the node resource is released exactly once, and no track becomes current. A failed
  delete and a \<^verbatim>\<open>KeyError\<close> of the release are logged, not raised.
\<close>

theorem idle_timeout_tears_down:
  assumes "\<not> is_playing e" and "\<not> waiting p" and "\<not> loop p"
    and "queue p = []" and "arrivals e = []"
  shows "play_next_song e p =
           teardown e (p\<lparr>pause_votes := {}, resume_votes := {}, skip_votes := {},
                          shuffle_votes := {}, stop_votes := {}, waiting := True\<rparr>)
       \<and> (\<forall>t. Play t \<notin> set (calls (play_next_song e p)))
       \<and> Send \<notin> set (calls (play_next_song e p))
       \<and> count_list (calls (play_next_song e p)) Destroy = 1
       \<and> (\<forall>m. menu p = Some m \<longrightarrow> hd (calls (play_next_song e p)) = Delete m)
       \<and> raised (play_next_song e p) = None
       \<and> now (session (play_next_song e p)) = now p
       \<and> queue (session (play_next_song e p)) = []"
proof -
  let ?p2 = "p\<lparr>pause_votes := {}, resume_votes := {}, skip_votes := {},
                shuffle_votes := {}, stop_votes := {}, waiting := True\<rparr>"
  have t: "play_next_song e p = teardown e ?p2"
    using assms by (simp add: play_next_song_split queue_get_def get_nowait_def)
  have s: "session (teardown e ?p2) = ?p2" by (rule teardown_state)
  show ?thesis
    unfolding t using assms(4) by (simp add: s teardown_events)
qed

theorem idle_timeout_tears_down_witness:
  "\<not> is_playing quiet_env \<and> \<not> waiting init_player \<and> \<not> loop init_player
   \<and> queue init_player = [] \<and> arrivals quiet_env = []
   \<and> play_next_song quiet_env init_player =
       \<lparr>session = init_player\<lparr>waiting := True\<rparr>,
        calls = [Warn ''Failed to delete menu message: No menu message'', Destroy],
        raised = None\<rparr>
   \<and> calls (play_next_song (quiet_env\<lparr>delete_res := DeleteHTTPException, destroy_res := DestroyKeyError\<rparr>)
            (init_player\<lparr>menu := Some \<lparr>msg_id = 4, message_attr = None\<rparr>\<rparr>)) =
       [Delete \<lparr>msg_id = 4, message_attr = None\<rparr>, Warn ''Failed to delete menu message'',
        Destroy, Warn ''Failed to destroy player'']"
  using idle_timeout_tears_down [of quiet_env init_player]
        idle_timeout_tears_down
          [of "quiet_env\<lparr>delete_res := DeleteHTTPException, destroy_res := DestroyKeyError\<rparr>"
              "init_player\<lparr>menu := Some \<lparr>msg_id = 4, message_attr = None\<rparr>\<rparr>"]
  by (simp add: init_player_def quiet_env_def teardown_def)

subsection \<open>Control surface\<close>

lemma songmenucontroller_one_send:
  "\<not> updating p \<Longrightarrow> sent e = Some msg \<Longrightarrow>
     count_list (calls (songmenucontroller e p)) Send = 1 \<and> raised (songmenucontroller e p) = None"
  by (simp add: songmenucontroller_def Let_def split: option.splits delete_outcome.splits)

lemma songmenucontroller_no_edit:
  "Edit m' \<notin> set (calls (songmenucontroller e p))"
  by (simp add: songmenucontroller_def Let_def split: option.splits delete_outcome.splits)

text \<open>
  Claim C7 as stated says that every refresh with no message handle creates exactly one
  message. A refresh that finds the \<^verbatim>\<open>updating\<close> flag set returns at once and creates
  none; and a refresh whose send raises creates none either: the exception leaves the
  method.
\<close>

theorem refresh_without_message_counterexample:
  "menu (init_player\<lparr>updating := True\<rparr>) = None
   \<and> songmenucontroller quiet_env (init_player\<lparr>updating := True\<rparr>)
       = \<lparr>session = init_player\<lparr>updating := True\<rparr>, calls = [], raised = None\<rparr>
   \<and> count_list (calls (songmenucontroller quiet_env (init_player\<lparr>updating := True\<rparr>))) Send
       \<noteq> 1
   \<and> menu init_player = None
   \<and> \<not> updating init_player
   \<and> songmenucontroller (quiet_env\<lparr>sent := None\<rparr>) init_player
       = \<lparr>session = init_player\<lparr>updating := True\<rparr>, calls = [], raised = Some SendError\<rparr>
   \<and> count_list (calls (songmenucontroller (quiet_env\<lparr>sent := None\<rparr>) init_player)) Send \<noteq> 1"
  by (simp add: songmenucontroller_def init_player_def quiet_env_def)

text \<open>
  Claim C7, amended. A refresh that is not already in progress (the \<^verbatim>\<open>updating\<close> flag is
  not set) and whose send returns a message creates exactly one message when there is no
  handle, and that message becomes the handle; when there is a handle whose message is among
  the ten most recent of the channel, it sends exactly one new message and keeps the handle.
  In both cases the method returns. No refresh, whatever its outcome, edits a message.
\<close>

theorem refresh_sends_fresh_message:
  assumes "\<not> updating p" and "sent e = Some msg"
  shows "(menu p = None \<longrightarrow>
            calls (songmenucontroller e p) = [Send]
          \<and> menu (session (songmenucontroller e p)) = Some msg
          \<and> raised (songmenucontroller e p) = None)
       \<and> (menu p = Some m \<and> history e = Some ms \<and> msg_id m \<in> set (take 10 ms) \<longrightarrow>
            count_list (calls (songmenucontroller e p)) Send = 1
          \<and> menu (session (songmenucontroller e p)) = Some m
          \<and> raised (songmenucontroller e p) = None)
       \<and> (\<forall>e' p' m'. Edit m' \<notin> set (calls (songmenucontroller e' p')))"
proof -
  have a: "menu p = None \<Longrightarrow> calls (songmenucontroller e p) = [Send]
          \<and> menu (session (songmenucontroller e p)) = Some msg
          \<and> raised (songmenucontroller e p) = None"
    using assms by (simp add: songmenucontroller_menu_created)
  have b: "count_list (calls (songmenucontroller e p)) Send = 1
           \<and> raised (songmenucontroller e p) = None"
    using assms by (rule songmenucontroller_one_send)
  have c: "\<forall>e' p' m'. Edit m' \<notin> set (calls (songmenucontroller e' p'))"
    by (simp add: songmenucontroller_no_edit)
  have d: "menu p = Some m \<Longrightarrow> menu (session (songmenucontroller e p)) = Some m"
    by (rule songmenucontroller_menu_kept)
  from a b c d show ?thesis by blast
qed

theorem refresh_sends_fresh_message_witness:
  "\<not> updating init_player \<and> menu init_player = None
   \<and> sent quiet_env = Some \<lparr>msg_id = 1, message_attr = None\<rparr>
   \<and> calls (songmenucontroller quiet_env init_player) = [Send]
   \<and> \<not> updating (init_player\<lparr>menu := Some \<lparr>msg_id = 1, message_attr = Some 1\<rparr>\<rparr>)
   \<and> menu (init_player\<lparr>menu := Some \<lparr>msg_id = 1, message_attr = Some 1\<rparr>\<rparr>)
       = Some \<lparr>msg_id = 1, message_attr = Some 1\<rparr>
   \<and> sent (quiet_env\<lparr>history := Some [5, 1]\<rparr>) = Some \<lparr>msg_id = 1, message_attr = None\<rparr>
   \<and> history (quiet_env\<lparr>history := Some [5, 1]\<rparr>) = Some [5, 1]
   \<and> msg_id \<lparr>msg_id = 1, message_attr = Some 1\<rparr> \<in> set (take 10 [5, 1])
   \<and> calls (songmenucontroller (quiet_env\<lparr>history := Some [5, 1]\<rparr>)
            (init_player\<lparr>menu := Some \<lparr>msg_id = 1, message_attr = Some 1\<rparr>\<rparr>))
       = [History, Send]"
  using refresh_sends_fresh_message
          [of init_player quiet_env "\<lparr>msg_id = 1, message_attr = None\<rparr>"]
        refresh_sends_fresh_message
          [of "init_player\<lparr>menu := Some \<lparr>msg_id = 1, message_attr = Some 1\<rparr>\<rparr>"
              "quiet_env\<lparr>history := Some [5, 1]\<rparr>"
              "\<lparr>msg_id = 1, message_attr = None\<rparr>"
              "\<lparr>msg_id = 1, message_attr = Some 1\<rparr>" "[5, 1]"]
  by (simp add: init_player_def quiet_env_def songmenucontroller_def is_menu_available_def)

text \<open>
  Claim C9. \<^verbatim>\<open>songmenucontroller\<close> changes the handle only in the branch that creates the
  first message, when there was none. A handle that exists is kept by every refresh, by
  \<^verbatim>\<open>play_next_song\<close>, by \<^verbatim>\<open>teardown\<close> and by the loop setter, so after the first
  refresh of a session the handle is what that refresh's send returned, whatever calls
  follow: the first message, and no handle at all when that send raised.
\<close>

theorem menu_handle_is_first_message:
  "(menu (session (songmenucontroller e p)) \<noteq> menu p \<longrightarrow>
       menu p = None
     \<and> menu (session (songmenucontroller e p)) = sent e
     \<and> calls (songmenucontroller e p) = [Send])
   \<and> (menu p = Some m \<longrightarrow>
         menu (session (songmenucontroller e p)) = Some m \<and> menu (run p cs) = Some m)
   \<and> (menu p = None \<and> \<not> updating p \<longrightarrow> menu (run p (Refresh e # cs)) = sent e)"
proof -
  have a: "menu p = None \<and> menu (session (songmenucontroller e p)) = sent e
           \<and> calls (songmenucontroller e p) = [Send]"
    if ch: "menu (session (songmenucontroller e p)) \<noteq> menu p"
  proof (cases "menu p")
    case None
    show ?thesis
    proof (cases "updating p")
      case True
      then have "songmenucontroller e p = \<lparr>session = p, calls = [], raised = None\<rparr>"
        by (rule songmenucontroller_busy)
      with ch show ?thesis by simp
    next
      case False
      show ?thesis
      proof (cases "sent e")
        case no: None
        with None False ch show ?thesis by (simp add: songmenucontroller_send_raises)
      next
        case (Some msg)
        with None False show ?thesis by (simp add: songmenucontroller_menu_created)
      qed
    qed
  next
    case (Some m0)
    then have "menu (session (songmenucontroller e p)) = Some m0"
      by (rule songmenucontroller_menu_kept)
    with Some ch show ?thesis by simp
  qed
  have b: "menu (session (songmenucontroller e p)) = Some m \<and> menu (run p cs) = Some m"
    if "menu p = Some m"
    using that by (simp add: songmenucontroller_menu_kept run_menu_kept)
  have c: "menu (run p (Refresh e # cs)) = sent e" if h: "menu p = None \<and> \<not> updating p"
  proof (cases "sent e")
    case None
    with h have "menu (step p (Refresh e)) = None \<and> updating (step p (Refresh e))"
      by (simp add: songmenucontroller_send_raises)
    then have "menu (run (step p (Refresh e)) cs) = None" by (simp add: run_stuck)
    with None show ?thesis by simp
  next
    case (Some msg)
    with h have "menu (step p (Refresh e)) = Some msg"
      by (simp add: songmenucontroller_menu_created)
    then have "menu (run (step p (Refresh e)) cs) = Some msg" by (rule run_menu_kept)
    with Some show ?thesis by simp
  qed
  from a b c show ?thesis by blast
qed

theorem menu_handle_is_first_message_witness:
  "menu init_player = None \<and> \<not> updating init_player
   \<and> menu (run init_player
        [Refresh quiet_env,
         Refresh (quiet_env\<lparr>history := Some [9],
                            sent := Some \<lparr>msg_id = 2, message_attr = None\<rparr>\<rparr>),
         Refresh (quiet_env\<lparr>history := Some [1],
                            sent := Some \<lparr>msg_id = 3, message_attr = Some 1\<rparr>\<rparr>),
         Teardown quiet_env])
       = Some \<lparr>msg_id = 1, message_attr = None\<rparr>"
  using menu_handle_is_first_message
          [of quiet_env init_player _
              "[Refresh (quiet_env\<lparr>history := Some [9],
                                   sent := Some \<lparr>msg_id = 2, message_attr = None\<rparr>\<rparr>),
                Refresh (quiet_env\<lparr>history := Some [1],
                                   sent := Some \<lparr>msg_id = 3, message_attr = Some 1\<rparr>\<rparr>),
                Teardown quiet_env]"]
  by (simp add: init_player_def quiet_env_def)

section \<open>Node launch\<close>

text \<open>
  Claim C8. When \<^verbatim>\<open>which java\<close> returns non-zero, \<^verbatim>\<open>run_lavalink_process\<close> logs the
  error that asks to install java and runs no launch command. When it returns zero, the
  launch command is run exactly once, whatever its outcome, and a launch that fails (a return
  code other than \<open>0\<close> and \<open>-2\<close>) is logged as an error. The routine has no raising
  branch: it ends with a log for every outcome. \<^verbatim>\<open>lavalink_alive\<close> runs the routine
  once.
\<close>

theorem node_launch_needs_runtime:
  "(returncode process \<noteq> 0 \<longrightarrow>
       run_lavalink_process process output =
         [Exec [''which'', ''java''],
          LogError ''Sorry, java is not installed in your system. Please install it in order to run Lavalink.'',
          Print (stdout process)]
     \<and> filter is_shell (run_lavalink_process process output) = [])
   \<and> (returncode process = 0 \<longrightarrow>
         filter is_shell (run_lavalink_process process output) = [Shell bash_command])
   \<and> (returncode process = 0 \<and> returncode output \<noteq> 0 \<and> returncode output \<noteq> - 2 \<longrightarrow>
         filter is_error_log (run_lavalink_process process output)
           = [LogError (''Lavalink is not running. Error: '' @ stdout output)])
   \<and> lavalink_alive process output = run_lavalink_process process output"
  by (simp add: run_lavalink_process_def lavalink_alive_def BaseProgram_def)

theorem node_launch_needs_runtime_witness:
  "returncode \<lparr>returncode = 1, stdout = []\<rparr> \<noteq> 0
   \<and> filter is_shell (run_lavalink_process \<lparr>returncode = 1, stdout = []\<rparr>
                                            \<lparr>returncode = 0, stdout = []\<rparr>) = []
   \<and> returncode \<lparr>returncode = 0, stdout = ''/usr/bin/java''\<rparr> = 0
   \<and> filter is_shell (run_lavalink_process \<lparr>returncode = 0, stdout = ''/usr/bin/java''\<rparr>
                                            \<lparr>returncode = 127, stdout = ''sh: java: not found''\<rparr>)
       = [Shell ''cd Lavalink && java -jar Lavalink.jar'']
   \<and> filter is_error_log (run_lavalink_process \<lparr>returncode = 0, stdout = ''/usr/bin/java''\<rparr>
                                            \<lparr>returncode = 127, stdout = ''sh: java: not found''\<rparr>)
       = [LogError ''Lavalink is not running. Error: sh: java: not found'']"
  using node_launch_needs_runtime
          [of "\<lparr>returncode = 1, stdout = []\<rparr>" "\<lparr>returncode = 0, stdout = []\<rparr>"]
        node_launch_needs_runtime
          [of "\<lparr>returncode = 0, stdout = ''/usr/bin/java''\<rparr>"
              "\<lparr>returncode = 127, stdout = ''sh: java: not found''\<rparr>"]
  by (simp add: bash_command_def)

end
